theory Spec2Isabelle
  imports Complex_Main "HOL-Library.Multiset" "HOL-Library.Log_Nat"
begin

section \<open>Data model of \<^verbatim>\<open>src/incident_manager.py\<close>\<close>

text \<open>
  A timestamp is the reading of \<^verbatim>\<open>datetime.now()\<close>: the local wall clock, counted here in
  microseconds since 1970-01-01T00:00:00 of that clock. The source keeps the reading as
  the ISO-8601 text \<^verbatim>\<open>isoformat()\<close> gives; its fields have fixed width, so the text order
  SQLite sorts by is the numeric order of the readings.
\<close>

type_synonym timestamp = nat

datatype error = IntegrityError | IndexError

text \<open>One entry of a timeline: the dict \<^verbatim>\<open>{"timestamp": ..., "event": ..., "author": ...}\<close>.\<close>

record timeline_event =
  timestamp :: timestamp
  event :: string
  author :: string

text \<open>The dataclass \<^verbatim>\<open>Alert\<close>; it is also the row of the table \<^verbatim>\<open>alerts\<close>.\<close>

record Alert =
  alert_id :: string
  alert_source :: string
  alert_message :: string
  alert_severity :: string
  alert_fired_at :: timestamp
  alert_incident_id :: "string option"

text \<open>The dataclass \<^verbatim>\<open>Incident\<close>.\<close>

record Incident =
  inc_id :: string
  title :: string
  severity :: string
  status :: string
  assignee :: string
  services :: "string list"
  timeline :: "timeline_event list"
  created_at :: timestamp
  resolved_at :: "timestamp option"
  postmortem :: string

text \<open>
  A row of the table \<^verbatim>\<open>incidents\<close>. The columns \<^verbatim>\<open>resolved_at\<close> and \<^verbatim>\<open>postmortem\<close> are
  NULL until something writes them. The columns \<^verbatim>\<open>services\<close> and \<^verbatim>\<open>timeline\<close> hold JSON
  text written by \<^verbatim>\<open>json.dumps\<close> and read by \<^verbatim>\<open>json.loads\<close>; the row keeps the decoded
  value.
\<close>

record incident_row =
  row_id :: string
  row_title :: string
  row_severity :: string
  row_status :: string
  row_assignee :: string
  row_services :: "string list"
  row_timeline :: "timeline_event list"
  row_created_at :: timestamp
  row_resolved_at :: "timestamp option"
  row_postmortem :: "string option"

text \<open>
  The database file: both tables, rows in insertion order. \<^verbatim>\<open>id\<close> is the primary key of
  each table, which \<^verbatim>\<open>INSERT\<close> enforces.
\<close>

record db =
  incidents :: "incident_row list"
  alerts :: "Alert list"

definition empty_db :: db where
  "empty_db = \<lparr>incidents = [], alerts = []\<rparr>"

definition TEAM :: "string list" where
  "TEAM = [''alexa'', ''alice'', ''octavia'', ''aria'', ''shellfish'']"

section \<open>SQL statements\<close>

text \<open>\<^verbatim>\<open>INSERT INTO incidents\<close>: raises \<^verbatim>\<open>IntegrityError\<close> when the key is taken.\<close>

definition insert_incident :: "db \<Rightarrow> incident_row \<Rightarrow> error + db" where
  "insert_incident s r =
     (if row_id r \<in> set (map row_id (incidents s)) then Inl IntegrityError
      else Inr (s\<lparr>incidents := incidents s @ [r]\<rparr>))"

definition insert_alert :: "db \<Rightarrow> Alert \<Rightarrow> error + db" where
  "insert_alert s a =
     (if alert_id a \<in> set (map alert_id (alerts s)) then Inl IntegrityError
      else Inr (s\<lparr>alerts := alerts s @ [a]\<rparr>))"

text \<open>
  \<^verbatim>\<open>UPDATE incidents SET ... WHERE id = ?\<close>: the new table and \<^verbatim>\<open>cursor.rowcount\<close>.
\<close>

definition update_where_id ::
  "(incident_row \<Rightarrow> incident_row) \<Rightarrow> string \<Rightarrow> db \<Rightarrow> db \<times> nat" where
  "update_where_id f i s =
     (s\<lparr>incidents := map (\<lambda>r. if row_id r = i then f r else r) (incidents s)\<rparr>,
      length (filter (\<lambda>r. row_id r = i) (incidents s)))"

text \<open>\<^verbatim>\<open>SELECT ... FROM incidents WHERE id = ?\<close> followed by \<^verbatim>\<open>fetchone()\<close>.\<close>

definition select_where_id :: "db \<Rightarrow> string \<Rightarrow> incident_row option" where
  "select_where_id s i = find (\<lambda>r. row_id r = i) (incidents s)"

text \<open>Building an \<^verbatim>\<open>Incident\<close> from a fetched row; \<^verbatim>\<open>postmortem=row[9] or ""\<close>.\<close>

definition incident_of_row :: "incident_row \<Rightarrow> Incident" where
  "incident_of_row r =
     \<lparr>inc_id = row_id r, title = row_title r, severity = row_severity r,
      status = row_status r, assignee = row_assignee r, services = row_services r,
      timeline = row_timeline r, created_at = row_created_at r,
      resolved_at = row_resolved_at r,
      postmortem = (case row_postmortem r of None \<Rightarrow> [] | Some p \<Rightarrow> p)\<rparr>"

section \<open>The methods of \<^verbatim>\<open>IncidentManager\<close>\<close>

text \<open>\<^verbatim>\<open>xs[i]\<close> for a non-negative index.\<close>

definition list_index :: "'a list \<Rightarrow> nat \<Rightarrow> error + 'a" where
  "list_index xs i = (if i < length xs then Inr (xs ! i) else Inl IndexError)"

text \<open>
  \<^verbatim>\<open>oncall_schedule\<close>; the argument is \<^verbatim>\<open>datetime.now().weekday()\<close>, Monday being 0.
\<close>

definition oncall_schedule :: "nat \<Rightarrow> error + string" where
  "oncall_schedule day_of_week = list_index TEAM (day_of_week mod length TEAM)"

text \<open>
  \<^verbatim>\<open>create_incident\<close>. What the method reads from its environment is passed in: the
  eight characters of the fresh UUID, the clock reading \<^verbatim>\<open>now\<close>, and the weekday the call
  of \<^verbatim>\<open>oncall_schedule\<close> sees. \<^verbatim>\<open>services or []\<close> turns \<^verbatim>\<open>None\<close> into the empty list. An
  exception leaves the database as it was.
\<close>

definition create_incident ::
  "db \<Rightarrow> string \<Rightarrow> timestamp \<Rightarrow> nat \<Rightarrow> string \<Rightarrow> string \<Rightarrow> string list option
     \<Rightarrow> db \<times> (error + Incident)" where
  "create_incident s incident_id now day_of_week ttl sev svcs =
     (case oncall_schedule day_of_week of
        Inl e \<Rightarrow> (s, Inl e)
      | Inr who \<Rightarrow>
          (let svcs' = (case svcs of None \<Rightarrow> [] | Some xs \<Rightarrow> xs);
               incident = \<lparr>inc_id = incident_id, title = ttl, severity = sev,
                           status = ''new'', assignee = who, services = svcs',
                           timeline = [], created_at = now, resolved_at = None,
                           postmortem = []\<rparr>
           in case insert_incident s
                     \<lparr>row_id = inc_id incident, row_title = title incident,
                      row_severity = severity incident, row_status = status incident,
                      row_assignee = assignee incident,
                      row_services = services incident,
                      row_timeline = timeline incident,
                      row_created_at = created_at incident,
                      row_resolved_at = None, row_postmortem = None\<rparr> of
                Inl e \<Rightarrow> (s, Inl e)
              | Inr s' \<Rightarrow> (s', Inr incident)))"

definition assign :: "db \<Rightarrow> string \<Rightarrow> string \<Rightarrow> db \<times> bool" where
  "assign s incident_id who =
     (let (s', rowcount) = update_where_id (\<lambda>r. r\<lparr>row_assignee := who\<rparr>) incident_id s
      in (s', rowcount > 0))"

definition valid_statuses :: "string list" where
  "valid_statuses = [''new'', ''investigating'', ''identified'', ''monitoring'', ''resolved'']"

definition update_status :: "db \<Rightarrow> string \<Rightarrow> string \<Rightarrow> db \<times> bool" where
  "update_status s incident_id st =
     (if st \<notin> set valid_statuses then (s, False)
      else let (s', rowcount) = update_where_id (\<lambda>r. r\<lparr>row_status := st\<rparr>) incident_id s
           in (s', rowcount > 0))"

definition add_timeline_event ::
  "db \<Rightarrow> timestamp \<Rightarrow> string \<Rightarrow> string \<Rightarrow> string \<Rightarrow> db \<times> bool" where
  "add_timeline_event s now incident_id ev who =
     (case select_where_id s incident_id of
        None \<Rightarrow> (s, False)
      | Some row \<Rightarrow>
          (let tl = row_timeline row @ [\<lparr>timestamp = now, event = ev, author = who\<rparr>]
           in (fst (update_where_id (\<lambda>r. r\<lparr>row_timeline := tl\<rparr>) incident_id s), True)))"

definition resolve :: "db \<Rightarrow> timestamp \<Rightarrow> string \<Rightarrow> string \<Rightarrow> db \<times> bool" where
  "resolve s now incident_id resolution_notes =
     (let (s', rowcount) =
            update_where_id (\<lambda>r. r\<lparr>row_status := ''resolved'', row_resolved_at := Some now\<rparr>)
              incident_id s
      in (s', rowcount > 0))"

definition get_incident :: "db \<Rightarrow> string \<Rightarrow> Incident option" where
  "get_incident s incident_id =
     (case select_where_id s incident_id of
        None \<Rightarrow> None
      | Some row \<Rightarrow> Some (incident_of_row row))"












text \<open>
  \<^verbatim>\<open>ORDER BY created_at DESC\<close>, as an insertion sort. Rows with equal \<^verbatim>\<open>created_at\<close> stay in
  table order; SQL leaves their order open.
\<close>

fun insert_desc :: "incident_row \<Rightarrow> incident_row list \<Rightarrow> incident_row list" where
  "insert_desc r [] = [r]"
| "insert_desc r (x # xs) =
     (if row_created_at x \<le> row_created_at r then r # x # xs else x # insert_desc r xs)"

definition order_by_created_at_desc :: "incident_row list \<Rightarrow> incident_row list" where
  "order_by_created_at_desc rows = foldr insert_desc rows []"

definition get_active_incidents :: "db \<Rightarrow> Incident list" where
  "get_active_incidents s =
     map incident_of_row
       (order_by_created_at_desc (filter (\<lambda>r. row_status r \<noteq> ''resolved'') (incidents s)))"

text \<open>
  \<^verbatim>\<open>auto_create_from_alert\<close>. It reads a second UUID and, after the incident is committed,
  the clock once more for \<^verbatim>\<open>fired_at\<close>. When the second \<^verbatim>\<open>INSERT\<close> raises, the incident
  stays.
\<close>

definition auto_create_from_alert ::
  "db \<Rightarrow> string \<Rightarrow> string \<Rightarrow> timestamp \<Rightarrow> nat \<Rightarrow> timestamp \<Rightarrow> string \<Rightarrow> string \<Rightarrow> string
     \<Rightarrow> db \<times> (error + Incident)" where
  "auto_create_from_alert s incident_id new_alert_id now day_of_week fired src msg sev =
     (case create_incident s incident_id now day_of_week (''Alert: '' @ msg) sev None of
        (s1, Inl e) \<Rightarrow> (s1, Inl e)
      | (s1, Inr incident) \<Rightarrow>
          (case insert_alert s1
                  \<lparr>alert_id = new_alert_id, alert_source = src, alert_message = msg,
                   alert_severity = sev, alert_fired_at = fired,
                   alert_incident_id = Some (inc_id incident)\<rparr> of
             Inl e \<Rightarrow> (s1, Inl e)
           | Inr s2 \<Rightarrow> (s2, Inr incident)))"

section \<open>Runs of the manager\<close>

text \<open>
  A call of the command line, with what it reads from its environment: UUIDs and the
  weekday. The clock is part of the world. It is the naive local wall clock, so between
  two calls it may step forward or back: each call reads it after it has moved by the
  signed number of microseconds paired with the call.
\<close>

datatype command =
    CreateIncident string nat string string "string list option"
  | Assign string string
  | UpdateStatus string string
  | AddTimelineEvent string string string
  | Resolve string string
  | AutoCreateFromAlert string string nat int string string string

record world =
  store :: db
  clock :: timestamp

text \<open>The clock after it has moved by \<open>d\<close>; it does not go before its epoch.\<close>

definition advance :: "timestamp \<Rightarrow> int \<Rightarrow> timestamp" where
  "advance t d = nat (int t + d)"

fun exec :: "world \<Rightarrow> int \<times> command \<Rightarrow> world" where
  "exec w (tick, CreateIncident uuid day_of_week ttl sev svcs) =
     \<lparr>store = fst (create_incident (store w) uuid (advance (clock w) tick) day_of_week
                      ttl sev svcs),
      clock = advance (clock w) tick\<rparr>"
| "exec w (tick, Assign i who) =
     \<lparr>store = fst (assign (store w) i who), clock = advance (clock w) tick\<rparr>"
| "exec w (tick, UpdateStatus i st) =
     \<lparr>store = fst (update_status (store w) i st), clock = advance (clock w) tick\<rparr>"
| "exec w (tick, AddTimelineEvent i ev who) =
     \<lparr>store = fst (add_timeline_event (store w) (advance (clock w) tick) i ev who),
      clock = advance (clock w) tick\<rparr>"
| "exec w (tick, Resolve i notes) =
     \<lparr>store = fst (resolve (store w) (advance (clock w) tick) i notes),
      clock = advance (clock w) tick\<rparr>"
| "exec w (tick, AutoCreateFromAlert uuid uuid' day_of_week tick' src msg sev) =
     \<lparr>store = fst (auto_create_from_alert (store w) uuid uuid' (advance (clock w) tick)
                      day_of_week (advance (advance (clock w) tick) tick') src msg sev),
      clock = advance (advance (clock w) tick) tick'\<rparr>"

definition boot :: "timestamp \<Rightarrow> world" where
  "boot t = \<lparr>store = empty_db, clock = t\<rparr>"

definition run :: "world \<Rightarrow> (int \<times> command) list \<Rightarrow> world" where
  "run w calls = foldl exec w calls"

section \<open>Properties named by the specification\<close>

text \<open>\<^verbatim>\<open>resolved_at\<close> is present exactly when the status is \<^verbatim>\<open>resolved\<close>, for every row.\<close>

definition resolved_at_iff_resolved :: "db \<Rightarrow> bool" where
  "resolved_at_iff_resolved s =
     list_all (\<lambda>r. (row_resolved_at r \<noteq> None) = (row_status r = ''resolved'')) (incidents s)"



text \<open>The fields of an incident no method writes after the row is inserted.\<close>

definition creation_fields :: "Incident \<Rightarrow> string \<times> string \<times> timestamp \<times> string list" where
  "creation_fields inc = (inc_id inc, title inc, created_at inc, services inc)"

text \<open>A list of incidents is in descending order of \<^verbatim>\<open>created_at\<close>.\<close>

definition created_at_descending :: "Incident list \<Rightarrow> bool" where
  "created_at_descending incs = sorted_wrt (\<lambda>a b. created_at b \<le> created_at a) incs"

text \<open>
  Calls of \<^verbatim>\<open>add_timeline_event\<close> on one incident, one after the other, each with its
  clock reading, event and author; the results are collected in call order.
\<close>

fun add_timeline_events ::
  "db \<Rightarrow> string \<Rightarrow> (timestamp \<times> string \<times> string) list \<Rightarrow> db \<times> bool list" where
  "add_timeline_events s i [] = (s, [])"
| "add_timeline_events s i ((now, ev, who) # calls) =
     (let (s1, ok) = add_timeline_event s now i ev who;
          (s2, oks) = add_timeline_events s1 i calls
      in (s2, ok # oks))"

definition entry_of_call :: "timestamp \<times> string \<times> string \<Rightarrow> timeline_event" where
  "entry_of_call c = \<lparr>timestamp = fst c, event = fst (snd c), author = snd (snd c)\<rparr>"



text \<open>
  An incident created two minutes after the epoch of the clock and resolved when the clock,
  set back in between, shows one minute after it.
\<close>

definition clock_back_db :: db where
  "clock_back_db =
     fst (resolve (fst (create_incident empty_db ''a1b2c3d4'' 120000000 0 ''db down'' ''P1'' None))
            60000000 ''a1b2c3d4'' [])"

section \<open>Status validation\<close>

lemma map_other_ids:
  "i \<notin> row_id ` set rows \<Longrightarrow> map (\<lambda>r. if row_id r = i then f r else r) rows = rows"
  by (induction rows) auto

lemma filter_other_ids:
  "i \<notin> row_id ` set rows \<Longrightarrow> filter (\<lambda>r. row_id r = i) rows = []"
  by (induction rows) auto

lemma update_where_id_unknown:
  "i \<notin> row_id ` set (incidents s) \<Longrightarrow> update_where_id f i s = (s, 0)"
  by (simp add: update_where_id_def map_other_ids filter_other_ids)

text \<open>
  C2: a status outside the five valid ones makes \<^verbatim>\<open>update_status\<close> return \<^verbatim>\<open>False\<close> before
  any statement is run, so the whole database, and with it the stored status of every
  incident, is what it was.
\<close>

theorem update_status_invalid:
  assumes "st \<notin> {''new'', ''investigating'', ''identified'', ''monitoring'', ''resolved''}"
  shows "update_status s incident_id st = (s, False) \<and>
         get_incident (fst (update_status s incident_id st)) j = get_incident s j"
  using assms by (simp add: update_status_def valid_statuses_def)

theorem update_status_invalid_witness:
  "''bogus'' \<notin> {''new'', ''investigating'', ''identified'', ''monitoring'', ''resolved''} \<and>
   (let s = fst (create_incident empty_db ''a1b2c3d4'' 1000000 0 ''db down'' ''P1'' None)
    in update_status s ''a1b2c3d4'' ''bogus'' = (s, False) \<and>
       map_option status (get_incident (fst (update_status s ''a1b2c3d4'' ''bogus'')) ''a1b2c3d4'')
         = Some ''new'')"
proof -
  have h: "''bogus'' \<notin> {''new'', ''investigating'', ''identified'', ''monitoring'', ''resolved''}"
    by simp
  show ?thesis
    using update_status_invalid [OF h]
    by (simp add: Let_def create_incident_def oncall_schedule_def list_index_def TEAM_def
        insert_incident_def empty_db_def get_incident_def select_where_id_def
        incident_of_row_def)
qed

text \<open>
  C10: \<^verbatim>\<open>update_status\<close> answers \<^verbatim>\<open>False\<close> for a status outside the valid list and
  answers the same \<^verbatim>\<open>False\<close> for a valid status with an id no row has; the returned value
  does not tell the two apart.
\<close>

theorem update_status_false_twice:
  "(st \<notin> set valid_statuses \<longrightarrow> snd (update_status s incident_id st) = False) \<and>
   (st' \<in> set valid_statuses \<and> get_incident s incident_id' = None \<longrightarrow>
      snd (update_status s incident_id' st') = False) \<and>
   (st \<notin> set valid_statuses \<and> st' \<in> set valid_statuses \<and> get_incident s incident_id' = None \<longrightarrow>
      snd (update_status s incident_id st) = snd (update_status s incident_id' st'))"
proof -
  have unknown: "incident_id' \<notin> row_id ` set (incidents s)"
    if "get_incident s incident_id' = None"
    using that
    by (auto simp: get_incident_def select_where_id_def find_None_iff split: option.splits)
  show ?thesis
    by (auto simp: update_status_def update_where_id_unknown dest: unknown)
qed

theorem update_status_false_twice_witness:
  "(let s = fst (create_incident empty_db ''a1b2c3d4'' 1000000 0 ''db down'' ''P1'' None)
    in ''bogus'' \<notin> set valid_statuses \<and> ''monitoring'' \<in> set valid_statuses \<and>
       get_incident s ''ffffffff'' = None \<and>
       snd (update_status s ''a1b2c3d4'' ''bogus'') = False \<and>
       snd (update_status s ''ffffffff'' ''monitoring'') = False)"
  using update_status_false_twice
    [of "''bogus''" "fst (create_incident empty_db ''a1b2c3d4'' 1000000 0 ''db down'' ''P1'' None)"
        "''a1b2c3d4''" "''monitoring''" "''ffffffff''"]
  by (simp add: Let_def create_incident_def oncall_schedule_def list_index_def TEAM_def
      insert_incident_def empty_db_def get_incident_def select_where_id_def valid_statuses_def)

section \<open>The on-call rotation\<close>

lemma oncall_schedule_Inr: "oncall_schedule d = Inr (TEAM ! (d mod length TEAM))"
  by (simp add: oncall_schedule_def list_index_def TEAM_def)

text \<open>
  C6: \<^verbatim>\<open>oncall_schedule\<close> depends on the weekday alone and returns the member of \<^verbatim>\<open>TEAM\<close> at
  index weekday mod \<^verbatim>\<open>len(TEAM)\<close>, never raising; weekdays that agree mod \<^verbatim>\<open>len(TEAM)\<close> get
  the same person, so the answer repeats with that period.
\<close>

theorem oncall_schedule_rotation:
  "oncall_schedule d = Inr (TEAM ! (d mod length TEAM)) \<and>
   TEAM ! (d mod length TEAM) \<in> set TEAM \<and>
   (d mod length TEAM = d' mod length TEAM \<longrightarrow> oncall_schedule d = oncall_schedule d') \<and>
   oncall_schedule (d + length TEAM) = oncall_schedule d"
proof -
  have "d mod length TEAM < length TEAM"
    by (simp add: TEAM_def)
  then have "TEAM ! (d mod length TEAM) \<in> set TEAM"
    by (rule nth_mem)
  then show ?thesis
    by (simp add: oncall_schedule_Inr)
qed

theorem oncall_schedule_rotation_witness:
  "(1::nat) mod length TEAM = 6 mod length TEAM \<and>
   oncall_schedule 1 = Inr ''alice'' \<and> oncall_schedule 6 = Inr ''alice'' \<and>
   map oncall_schedule [0, 1, 2, 3, 4, 5, 6] =
     map Inr [''alexa'', ''alice'', ''octavia'', ''aria'', ''shellfish'', ''alexa'', ''alice'']"
  using oncall_schedule_rotation [of 1 6]
  by (simp add: TEAM_def oncall_schedule_def list_index_def)

section \<open>Creation\<close>

lemma find_fresh_append:
  "i \<notin> row_id ` set rows \<Longrightarrow>
   find (\<lambda>r. row_id r = i) (rows @ [r]) = (if row_id r = i then Some r else None)"
  by (induction rows) auto

text \<open>
  C3: with an id no row has yet, \<^verbatim>\<open>create_incident\<close> returns an incident with status
  \<^verbatim>\<open>new\<close>, an empty timeline, no \<^verbatim>\<open>resolved_at\<close>, \<^verbatim>\<open>created_at\<close> the clock reading of the call,
  the assignee \<^verbatim>\<open>oncall_schedule\<close> gives for the weekday, and the services passed in (none for
  \<^verbatim>\<open>None\<close>); \<^verbatim>\<open>get_incident\<close> reads the same incident back from the stored row.
\<close>

theorem create_incident_new:
  assumes "incident_id \<notin> row_id ` set (incidents s)"
  shows "\<exists>s' inc.
           create_incident s incident_id now day_of_week ttl sev svcs = (s', Inr inc) \<and>
           inc_id inc = incident_id \<and> title inc = ttl \<and> severity inc = sev \<and>
           status inc = ''new'' \<and> timeline inc = [] \<and> resolved_at inc = None \<and>
           created_at inc = now \<and> oncall_schedule day_of_week = Inr (assignee inc) \<and>
           services inc = (case svcs of None \<Rightarrow> [] | Some xs \<Rightarrow> xs) \<and>
           get_incident s' incident_id = Some inc"
  using assms
  by (simp add: create_incident_def oncall_schedule_Inr insert_incident_def Let_def
      get_incident_def select_where_id_def find_fresh_append incident_of_row_def)

theorem create_incident_new_witness:
  "''a1b2c3d4'' \<notin> row_id ` set (incidents empty_db) \<and>
   (\<exists>s'. create_incident empty_db ''a1b2c3d4'' 1000000 5 ''db down'' ''P1'' (Some [''api'', ''db''])
           = (s', Inr \<lparr>inc_id = ''a1b2c3d4'', title = ''db down'', severity = ''P1'',
                         status = ''new'', assignee = ''alexa'', services = [''api'', ''db''],
                         timeline = [], created_at = 1000000, resolved_at = None,
                         postmortem = []\<rparr>) \<and>
         get_incident s' ''a1b2c3d4'' =
           Some \<lparr>inc_id = ''a1b2c3d4'', title = ''db down'', severity = ''P1'',
                 status = ''new'', assignee = ''alexa'', services = [''api'', ''db''],
                 timeline = [], created_at = 1000000, resolved_at = None, postmortem = []\<rparr>)"
proof -
  have h: "''a1b2c3d4'' \<notin> row_id ` set (incidents empty_db)"
    by (simp add: empty_db_def)
  show ?thesis
    using create_incident_new [OF h, of 1000000 5 "''db down''" "''P1''" "Some [''api'', ''db'']"]
    by (simp add: create_incident_def oncall_schedule_def list_index_def TEAM_def
        insert_incident_def empty_db_def Let_def get_incident_def select_where_id_def
        incident_of_row_def)
qed

section \<open>Updates of one row\<close>

lemma find_row_id: "find (\<lambda>r. row_id r = j) rows = Some r \<Longrightarrow> row_id r = j"
  by (induction rows) (auto split: if_splits)

lemma find_map_update:
  assumes "\<And>r. row_id (f r) = row_id r"
  shows "find (\<lambda>r. row_id r = j) (map (\<lambda>r. if row_id r = i then f r else r) rows) =
         map_option (\<lambda>r. if j = i then f r else r) (find (\<lambda>r. row_id r = j) rows)"
  using assms by (induction rows) auto

lemma select_after_update:
  assumes "\<And>r. row_id (f r) = row_id r"
  shows "select_where_id (fst (update_where_id f i s)) j =
         map_option (\<lambda>r. if j = i then f r else r) (select_where_id s j)"
  using find_map_update [of f j i "incidents s", OF assms]
  by (simp add: select_where_id_def update_where_id_def)

lemma rowcount_positive:
  "(0 < snd (update_where_id f i s)) = (select_where_id s i \<noteq> None)"
  by (auto simp: update_where_id_def select_where_id_def find_None_iff filter_empty_conv)

lemma alerts_after_update: "alerts (fst (update_where_id f i s)) = alerts s"
  by (simp add: update_where_id_def)

lemma get_incident_None: "(get_incident s i = None) = (select_where_id s i = None)"
  by (simp add: get_incident_def split: option.splits)

lemma assign_eq:
  "assign s i who =
     (fst (update_where_id (\<lambda>r. r\<lparr>row_assignee := who\<rparr>) i s), select_where_id s i \<noteq> None)"
  using rowcount_positive [of "\<lambda>r. r\<lparr>row_assignee := who\<rparr>" i s]
  by (simp add: assign_def case_prod_beta)

lemma update_status_eq:
  "update_status s i st =
     (if st \<notin> set valid_statuses then (s, False)
      else (fst (update_where_id (\<lambda>r. r\<lparr>row_status := st\<rparr>) i s), select_where_id s i \<noteq> None))"
  using rowcount_positive [of "\<lambda>r. r\<lparr>row_status := st\<rparr>" i s]
  by (simp add: update_status_def case_prod_beta)

lemma resolve_eq:
  "resolve s now i nts =
     (fst (update_where_id (\<lambda>r. r\<lparr>row_status := ''resolved'', row_resolved_at := Some now\<rparr>) i s),
      select_where_id s i \<noteq> None)"
  using rowcount_positive
    [of "\<lambda>r. r\<lparr>row_status := ''resolved'', row_resolved_at := Some now\<rparr>" i s]
  by (simp add: resolve_def case_prod_beta)

section \<open>Reading an incident after an update\<close>

lemma get_incident_after_update:
  assumes "\<And>r. row_id (f r) = row_id r"
  shows "get_incident (fst (update_where_id f i s)) j =
         map_option (\<lambda>r. incident_of_row (if j = i then f r else r)) (select_where_id s j)"
  by (simp add: get_incident_def select_after_update [of f, OF assms] split: option.splits)

lemma get_incident_select:
  "get_incident s j = map_option incident_of_row (select_where_id s j)"
  by (simp add: get_incident_def split: option.splits)

lemma select_None_unknown: "select_where_id s i = None \<Longrightarrow> i \<notin> row_id ` set (incidents s)"
  by (auto simp: select_where_id_def find_None_iff)

section \<open>Resolution\<close>

text \<open>
  C4, as the code has it: \<^verbatim>\<open>resolve\<close> on an id that has a row returns \<^verbatim>\<open>True\<close>, and
  \<^verbatim>\<open>get_incident\<close> then shows the incident as it was but with status \<^verbatim>\<open>resolved\<close> and
  \<^verbatim>\<open>resolved_at\<close> the clock reading of the call, whatever the status was before. That
  \<^verbatim>\<open>resolved_at\<close> is not earlier than \<^verbatim>\<open>created_at\<close> exactly when the reading of the call is
  not earlier than the reading stored as \<^verbatim>\<open>created_at\<close>. On an id without a row \<^verbatim>\<open>resolve\<close>
  returns \<^verbatim>\<open>False\<close> and changes nothing.
\<close>

theorem resolve_stamps_now:
  "(case get_incident s i of
      None \<Rightarrow> resolve s now i nts = (s, False)
    | Some inc \<Rightarrow>
        snd (resolve s now i nts) = True \<and>
        get_incident (fst (resolve s now i nts)) i =
          Some (inc\<lparr>status := ''resolved'', resolved_at := Some now\<rparr>) \<and>
        (created_at inc \<le> now) =
          (\<exists>inc' t. get_incident (fst (resolve s now i nts)) i = Some inc' \<and>
             resolved_at inc' = Some t \<and> created_at inc' \<le> t))"
proof (cases "select_where_id s i")
  case None
  then show ?thesis
    by (simp add: get_incident_select resolve_eq update_where_id_unknown select_None_unknown)
next
  case (Some r)
  then show ?thesis
    by (simp add: get_incident_select resolve_eq select_after_update incident_of_row_def)
qed

theorem resolve_stamps_now_witness:
  "(let s = fst (resolve
                  (fst (create_incident empty_db ''a1b2c3d4'' 1000000 0 ''db down'' ''P1'' None))
                  1000005 ''a1b2c3d4'' [])
    in map_option (\<lambda>inc. (status inc, resolved_at inc, created_at inc))
         (get_incident s ''a1b2c3d4'') = Some (''resolved'', Some 1000005, 1000000) \<and>
       (1000000::nat) \<le> 1000012 \<and>
       snd (resolve s 1000012 ''a1b2c3d4'' []) = True \<and>
       map_option (\<lambda>inc. (status inc, resolved_at inc, created_at inc))
         (get_incident (fst (resolve s 1000012 ''a1b2c3d4'' [])) ''a1b2c3d4'')
         = Some (''resolved'', Some 1000012, 1000000) \<and>
       resolve s 1000012 ''ffffffff'' [] = (s, False))"
  using resolve_stamps_now
          [where s = "fst (resolve
                  (fst (create_incident empty_db ''a1b2c3d4'' 1000000 0 ''db down'' ''P1'' None))
                  1000005 ''a1b2c3d4'' [])"
             and i = "''a1b2c3d4''" and now = 1000012 and nts = "[]"]
        resolve_stamps_now
          [where s = "fst (resolve
                  (fst (create_incident empty_db ''a1b2c3d4'' 1000000 0 ''db down'' ''P1'' None))
                  1000005 ''a1b2c3d4'' [])"
             and i = "''ffffffff''" and now = 1000012 and nts = "[]"]
  by (simp add: Let_def empty_db_def create_incident_def oncall_schedule_def
      list_index_def TEAM_def insert_incident_def resolve_def update_where_id_def
      get_incident_def select_where_id_def incident_of_row_def)

text \<open>
  The claim C4 as it is written fails when the wall clock is set back between the two
  calls: the incident of \<^verbatim>\<open>clock_back_db\<close> was created at the reading 120 s, \<^verbatim>\<open>resolve\<close> read
  60 s and returned \<^verbatim>\<open>True\<close>, and \<^verbatim>\<open>get_incident\<close> shows a \<^verbatim>\<open>resolved_at\<close> earlier than
  \<^verbatim>\<open>created_at\<close>.
\<close>

theorem resolve_clock_back_counterexample:
  "snd (resolve (fst (create_incident empty_db ''a1b2c3d4'' 120000000 0 ''db down'' ''P1'' None))
          60000000 ''a1b2c3d4'' []) = True \<and>
   map_option status (get_incident clock_back_db ''a1b2c3d4'') = Some ''resolved'' \<and>
   map_option created_at (get_incident clock_back_db ''a1b2c3d4'') = Some 120000000 \<and>
   map_option resolved_at (get_incident clock_back_db ''a1b2c3d4'') = Some (Some 60000000) \<and>
   \<not> (120000000::nat) \<le> 60000000"
  by (simp add: clock_back_db_def empty_db_def create_incident_def oncall_schedule_def
      list_index_def TEAM_def insert_incident_def resolve_def update_where_id_def Let_def
      get_incident_def select_where_id_def incident_of_row_def)

section \<open>Timeline\<close>

lemma add_timeline_event_unknown:
  "get_incident s i = None \<Longrightarrow> add_timeline_event s now i ev who = (s, False)"
  by (simp add: add_timeline_event_def get_incident_None)

lemma add_timeline_event_known:
  assumes "get_incident s i = Some inc"
  shows "snd (add_timeline_event s now i ev who) = True"
    and "get_incident (fst (add_timeline_event s now i ev who)) i =
         Some (inc\<lparr>timeline := timeline inc @ [\<lparr>timestamp = now, event = ev, author = who\<rparr>]\<rparr>)"
proof -
  obtain r where r: "select_where_id s i = Some r" and inc: "inc = incident_of_row r"
    using assms by (auto simp: get_incident_select)
  show "snd (add_timeline_event s now i ev who) = True"
    by (simp add: add_timeline_event_def r Let_def)
  show "get_incident (fst (add_timeline_event s now i ev who)) i =
        Some (inc\<lparr>timeline := timeline inc @ [\<lparr>timestamp = now, event = ev, author = who\<rparr>]\<rparr>)"
    by (simp add: add_timeline_event_def r inc Let_def get_incident_after_update
        incident_of_row_def)
qed

lemma add_timeline_events_known:
  "get_incident s i = Some inc \<Longrightarrow>
   snd (add_timeline_events s i calls) = replicate (length calls) True \<and>
   get_incident (fst (add_timeline_events s i calls)) i =
     Some (inc\<lparr>timeline := timeline inc @ map entry_of_call calls\<rparr>)"
proof (induction calls arbitrary: s inc)
  case Nil
  then show ?case by simp
next
  case (Cons c calls)
  obtain now ev who where c: "c = (now, ev, who)"
    by (cases c)
  let ?s1 = "fst (add_timeline_event s now i ev who)"
  let ?inc1 = "inc\<lparr>timeline := timeline inc @ [\<lparr>timestamp = now, event = ev, author = who\<rparr>]\<rparr>"
  have ok: "snd (add_timeline_event s now i ev who) = True"
    and s1: "get_incident ?s1 i = Some ?inc1"
    using add_timeline_event_known [OF Cons.prems] by simp_all
  have rest: "snd (add_timeline_events ?s1 i calls) = replicate (length calls) True \<and>
              get_incident (fst (add_timeline_events ?s1 i calls)) i =
                Some (?inc1\<lparr>timeline := timeline ?inc1 @ map entry_of_call calls\<rparr>)"
    using Cons.IH [OF s1] .
  show ?case
    using ok rest by (simp add: c case_prod_beta Let_def entry_of_call_def)
qed

text \<open>
  C8: \<^verbatim>\<open>add_timeline_event\<close> on an id without a row returns \<^verbatim>\<open>False\<close> and leaves the database
  as it was. On an id with a row it returns \<^verbatim>\<open>True\<close> and the incident read back differs only
  in its timeline, which is the old one followed by the one entry of the call. So any
  number of calls in a row all return \<^verbatim>\<open>True\<close> and extend the timeline by their entries in
  call order: starting from an empty timeline, N calls give N entries, the k-th with the
  event and the author of the k-th call.
\<close>

theorem add_timeline_event_appends:
  "(case get_incident s i of
      None \<Rightarrow> add_timeline_event s now i ev who = (s, False)
    | Some inc \<Rightarrow>
        snd (add_timeline_event s now i ev who) = True \<and>
        get_incident (fst (add_timeline_event s now i ev who)) i =
          Some (inc\<lparr>timeline := timeline inc @ [\<lparr>timestamp = now, event = ev, author = who\<rparr>]\<rparr>) \<and>
        snd (add_timeline_events s i calls) = replicate (length calls) True \<and>
        (\<exists>inc'. get_incident (fst (add_timeline_events s i calls)) i = Some inc' \<and>
           inc' = inc\<lparr>timeline := timeline inc @ map entry_of_call calls\<rparr> \<and>
           (timeline inc = [] \<longrightarrow>
              length (timeline inc') = length calls \<and>
              (\<forall>k < length calls.
                 timestamp (timeline inc' ! k) = fst (calls ! k) \<and>
                 event (timeline inc' ! k) = fst (snd (calls ! k)) \<and>
                 author (timeline inc' ! k) = snd (snd (calls ! k))))))"
proof (cases "get_incident s i")
  case None
  then show ?thesis
    by (simp add: add_timeline_event_unknown)
next
  case (Some inc)
  show ?thesis
    using add_timeline_event_known [OF Some, of now ev who]
      add_timeline_events_known [OF Some, of calls]
    by (simp add: Some entry_of_call_def)
qed

theorem add_timeline_event_appends_witness:
  "(let s = fst (create_incident empty_db ''a1b2c3d4'' 1000000 0 ''db down'' ''P1'' None);
        s' = fst (add_timeline_events s ''a1b2c3d4''
                    [(2000000, ''paged'', ''alexa''), (3000000, ''rolled back'', ''aria'')])
    in map_option timeline (get_incident s ''a1b2c3d4'') = Some [] \<and>
       add_timeline_event s 2000000 ''ffffffff'' ''paged'' ''alexa'' = (s, False) \<and>
       snd (add_timeline_events s ''a1b2c3d4''
              [(2000000, ''paged'', ''alexa''), (3000000, ''rolled back'', ''aria'')])
         = [True, True] \<and>
       map_option timeline (get_incident s' ''a1b2c3d4'') =
         Some [\<lparr>timestamp = 2000000, event = ''paged'', author = ''alexa''\<rparr>,
               \<lparr>timestamp = 3000000, event = ''rolled back'', author = ''aria''\<rparr>])"
  using add_timeline_event_appends
          [where s = "fst (create_incident empty_db ''a1b2c3d4'' 1000000 0 ''db down'' ''P1'' None)"
             and i = "''a1b2c3d4''" and now = 2000000 and ev = "''paged''" and who = "''alexa''"
             and calls = "[(2000000, ''paged'', ''alexa''), (3000000, ''rolled back'', ''aria'')]"]
    add_timeline_event_appends
          [where s = "fst (create_incident empty_db ''a1b2c3d4'' 1000000 0 ''db down'' ''P1'' None)"
             and i = "''ffffffff''" and now = 2000000 and ev = "''paged''" and who = "''alexa''"
             and calls = "[]"]
  by (simp add: Let_def empty_db_def create_incident_def oncall_schedule_def
      list_index_def TEAM_def insert_incident_def add_timeline_event_def update_where_id_def
      get_incident_def select_where_id_def incident_of_row_def)

section \<open>What later calls leave alone\<close>

lemma update_frame:
  assumes "\<And>r. row_id (f r) = row_id r" and "\<And>r. row_title (f r) = row_title r"
    and "\<And>r. row_created_at (f r) = row_created_at r"
    and "\<And>r. row_services (f r) = row_services r"
  shows "map_option creation_fields (get_incident (fst (update_where_id f i s)) j) =
           map_option creation_fields (get_incident s j) \<and>
         (j \<noteq> i \<longrightarrow> get_incident (fst (update_where_id f i s)) j = get_incident s j)"
proof -
  have upd: "get_incident (fst (update_where_id f i s)) j =
             map_option (\<lambda>r. incident_of_row (if j = i then f r else r)) (select_where_id s j)"
    by (rule get_incident_after_update) (rule assms)
  have old: "get_incident s j = map_option incident_of_row (select_where_id s j)"
    by (rule get_incident_select)
  show ?thesis
    by (cases "select_where_id s j")
      (simp_all add: upd old creation_fields_def incident_of_row_def assms)
qed

text \<open>
  C9: \<^verbatim>\<open>assign\<close>, \<^verbatim>\<open>update_status\<close>, \<^verbatim>\<open>add_timeline_event\<close> and \<^verbatim>\<open>resolve\<close> leave the id, title,
  \<^verbatim>\<open>created_at\<close> and services of every incident as they were, create and remove no incident,
  and leave every incident with another id than the one they are called on wholly as it
  was.
\<close>

theorem later_calls_keep_creation_fields:
  "\<forall>s' \<in> {fst (assign s i who), fst (update_status s i st),
            fst (add_timeline_event s now i ev who'), fst (resolve s now' i nts)}.
     map_option creation_fields (get_incident s' j) =
       map_option creation_fields (get_incident s j) \<and>
     (j \<noteq> i \<longrightarrow> get_incident s' j = get_incident s j)"
proof -
  have "map_option creation_fields (get_incident (fst (assign s i who)) j) =
          map_option creation_fields (get_incident s j) \<and>
        (j \<noteq> i \<longrightarrow> get_incident (fst (assign s i who)) j = get_incident s j)"
    by (simp only: assign_eq fst_conv) (rule update_frame; simp)
  moreover
  have "map_option creation_fields (get_incident (fst (update_status s i st)) j) =
          map_option creation_fields (get_incident s j) \<and>
        (j \<noteq> i \<longrightarrow> get_incident (fst (update_status s i st)) j = get_incident s j)"
  proof (cases "st \<in> set valid_statuses")
    case True
    then have upd: "fst (update_status s i st) =
                    fst (update_where_id (\<lambda>r. r\<lparr>row_status := st\<rparr>) i s)"
      by (simp add: update_status_eq)
    show ?thesis
      unfolding upd by (rule update_frame; simp)
  next
    case False
    then show ?thesis
      by (simp add: update_status_eq)
  qed
  moreover
  have "map_option creation_fields (get_incident (fst (add_timeline_event s now i ev who')) j) =
          map_option creation_fields (get_incident s j) \<and>
        (j \<noteq> i \<longrightarrow> get_incident (fst (add_timeline_event s now i ev who')) j = get_incident s j)"
  proof (cases "select_where_id s i")
    case None
    then show ?thesis
      by (simp add: add_timeline_event_def)
  next
    case (Some r)
    then show ?thesis
      by (simp only: add_timeline_event_def option.case Let_def fst_conv)
        (rule update_frame; simp)
  qed
  moreover
  have "map_option creation_fields (get_incident (fst (resolve s now' i nts)) j) =
          map_option creation_fields (get_incident s j) \<and>
        (j \<noteq> i \<longrightarrow> get_incident (fst (resolve s now' i nts)) j = get_incident s j)"
    by (simp only: resolve_eq fst_conv) (rule update_frame; simp)
  ultimately show ?thesis
    by simp
qed

theorem later_calls_keep_creation_fields_witness:
  "(let s = fst (create_incident
                  (fst (create_incident empty_db ''a1b2c3d4'' 1000000 0 ''db down'' ''P1'' None))
                  ''e5f6a7b8'' 2000000 1 ''cache cold'' ''P3'' (Some [''redis'']))
    in ''e5f6a7b8'' \<noteq> ''a1b2c3d4'' \<and>
       map (\<lambda>s'. (map_option creation_fields (get_incident s' ''a1b2c3d4''),
                   get_incident s' ''e5f6a7b8''))
         [fst (assign s ''a1b2c3d4'' ''aria''), fst (update_status s ''a1b2c3d4'' ''monitoring''),
          fst (add_timeline_event s 3000000 ''a1b2c3d4'' ''paged'' ''aria''),
          fst (resolve s 4000000 ''a1b2c3d4'' [])] =
       replicate (Suc (Suc (Suc (Suc 0))))
         (Some (''a1b2c3d4'', ''db down'', 1000000, []),
          Some \<lparr>inc_id = ''e5f6a7b8'', title = ''cache cold'', severity = ''P3'',
                status = ''new'', assignee = ''alice'', services = [''redis''],
                timeline = [], created_at = 2000000, resolved_at = None, postmortem = []\<rparr>))"
  using later_calls_keep_creation_fields
          [where s = "fst (create_incident
                  (fst (create_incident empty_db ''a1b2c3d4'' 1000000 0 ''db down'' ''P1'' None))
                  ''e5f6a7b8'' 2000000 1 ''cache cold'' ''P3'' (Some [''redis'']))"
             and i = "''a1b2c3d4''" and j = "''e5f6a7b8''" and who = "''aria''"
             and st = "''monitoring''" and now = 3000000 and ev = "''paged''" and who' = "''aria''"
             and now' = 4000000 and nts = "[]"]
        later_calls_keep_creation_fields
          [where s = "fst (create_incident
                  (fst (create_incident empty_db ''a1b2c3d4'' 1000000 0 ''db down'' ''P1'' None))
                  ''e5f6a7b8'' 2000000 1 ''cache cold'' ''P3'' (Some [''redis'']))"
             and i = "''a1b2c3d4''" and j = "''a1b2c3d4''" and who = "''aria''"
             and st = "''monitoring''" and now = 3000000 and ev = "''paged''" and who' = "''aria''"
             and now' = 4000000 and nts = "[]"]
  by (simp add: Let_def empty_db_def create_incident_def oncall_schedule_def list_index_def
      TEAM_def insert_incident_def get_incident_def select_where_id_def incident_of_row_def
      creation_fields_def assign_def update_status_def valid_statuses_def
      add_timeline_event_def resolve_def update_where_id_def)

section \<open>Active incidents\<close>

lemma mset_insert_desc: "mset (insert_desc r rows) = add_mset r (mset rows)"
  by (induction rows) auto

lemma mset_order_by_created_at_desc: "mset (order_by_created_at_desc rows) = mset rows"
  by (induction rows) (simp_all add: order_by_created_at_desc_def mset_insert_desc)

lemma set_insert_desc: "set (insert_desc r rows) = insert r (set rows)"
  by (induction rows) auto

lemma sorted_insert_desc:
  "sorted_wrt (\<lambda>a b. row_created_at b \<le> row_created_at a) rows \<Longrightarrow>
   sorted_wrt (\<lambda>a b. row_created_at b \<le> row_created_at a) (insert_desc r rows)"
  by (induction rows) (auto simp: set_insert_desc)

lemma sorted_order_by_created_at_desc:
  "sorted_wrt (\<lambda>a b. row_created_at b \<le> row_created_at a) (order_by_created_at_desc rows)"
  by (induction rows) (simp_all add: order_by_created_at_desc_def sorted_insert_desc)

text \<open>
  C7: \<^verbatim>\<open>get_active_incidents\<close> returns the incidents of the rows whose status is not
  \<^verbatim>\<open>resolved\<close>, each as often as the table has it and no other, so none of the returned
  incidents is resolved; the list is in descending order of \<^verbatim>\<open>created_at\<close>.
\<close>

theorem get_active_incidents_spec:
  "mset (get_active_incidents s) =
     mset (map incident_of_row (filter (\<lambda>r. row_status r \<noteq> ''resolved'') (incidents s))) \<and>
   (\<forall>inc \<in> set (get_active_incidents s). status inc \<noteq> ''resolved'') \<and>
   created_at_descending (get_active_incidents s)"
proof -
  let ?act = "filter (\<lambda>r. row_status r \<noteq> ''resolved'') (incidents s)"
  have m: "mset (get_active_incidents s) = mset (map incident_of_row ?act)"
    by (simp add: get_active_incidents_def mset_order_by_created_at_desc)
  have "set (get_active_incidents s) = set (map incident_of_row ?act)"
    using m by (rule mset_eq_setD)
  then have a: "\<forall>inc \<in> set (get_active_incidents s). status inc \<noteq> ''resolved''"
    by (auto simp: incident_of_row_def)
  have "sorted_wrt (\<lambda>a b. created_at (incident_of_row b) \<le> created_at (incident_of_row a))
          (order_by_created_at_desc ?act)"
    using sorted_order_by_created_at_desc [of ?act] by (simp add: incident_of_row_def)
  then have d: "created_at_descending (get_active_incidents s)"
    by (simp add: created_at_descending_def get_active_incidents_def sorted_wrt_map)
  show ?thesis
    using m a d by simp
qed

theorem get_active_incidents_spec_witness:
  "(let s = store (run (boot 0)
              [(1000000, CreateIncident ''a1b2c3d4'' 0 ''db down'' ''P1'' None),
               (1000000, CreateIncident ''e5f6a7b8'' 1 ''cache cold'' ''P3'' None),
               (1000000, CreateIncident ''0badcafe'' 2 ''disk full'' ''P2'' None),
               (1000000, Resolve ''e5f6a7b8'' []),
               (1000000, UpdateStatus ''a1b2c3d4'' ''monitoring'')])
    in map (\<lambda>inc. (inc_id inc, status inc, created_at inc)) (get_active_incidents s) =
         [(''0badcafe'', ''new'', 3000000), (''a1b2c3d4'', ''monitoring'', 1000000)] \<and>
       map row_status (incidents s) = [''monitoring'', ''resolved'', ''new''] \<and>
       created_at_descending (get_active_incidents s))"
  using get_active_incidents_spec
          [of "store (run (boot 0)
              [(1000000, CreateIncident ''a1b2c3d4'' 0 ''db down'' ''P1'' None),
               (1000000, CreateIncident ''e5f6a7b8'' 1 ''cache cold'' ''P3'' None),
               (1000000, CreateIncident ''0badcafe'' 2 ''disk full'' ''P2'' None),
               (1000000, Resolve ''e5f6a7b8'' []),
               (1000000, UpdateStatus ''a1b2c3d4'' ''monitoring'')])"]
  by (simp add: Let_def run_def boot_def advance_def empty_db_def create_incident_def oncall_schedule_def
      list_index_def TEAM_def insert_incident_def resolve_def update_status_def
      valid_statuses_def update_where_id_def get_active_incidents_def
      order_by_created_at_desc_def incident_of_row_def)

section \<open>Mean time to resolve\<close>

subsection \<open>Rounding to a double\<close>













subsection \<open>The average and \<^verbatim>\<open>get_mttr\<close>\<close>









section \<open>\<^verbatim>\<open>resolved_at\<close> and the status\<close>

lemma list_all_update:
  "list_all P rows \<Longrightarrow> (\<And>r. P r \<Longrightarrow> P (f r)) \<Longrightarrow>
   list_all P (map (\<lambda>r. if row_id r = i then f r else r) rows)"
  by (induction rows) auto

lemma resolved_at_iff_resolved_update:
  assumes "resolved_at_iff_resolved s"
    and "\<And>r. (row_resolved_at r \<noteq> None) = (row_status r = ''resolved'') \<Longrightarrow>
             (row_resolved_at (f r) \<noteq> None) = (row_status (f r) = ''resolved'')"
  shows "resolved_at_iff_resolved (fst (update_where_id f i s))"
  using assms
  by (simp add: resolved_at_iff_resolved_def update_where_id_def list_all_update)

lemma resolved_at_iff_resolved_create:
  "resolved_at_iff_resolved s \<Longrightarrow>
   resolved_at_iff_resolved (fst (create_incident s uuid now day_of_week ttl sev svcs))"
  by (simp add: resolved_at_iff_resolved_def create_incident_def insert_incident_def Let_def
      oncall_schedule_Inr)

text \<open>
  Every method that writes the table keeps \<^verbatim>\<open>resolved_at\<close> in step with the status, except
  \<^verbatim>\<open>update_status\<close>.
\<close>

lemma resolved_at_iff_resolved_kept:
  assumes "resolved_at_iff_resolved s"
  shows "resolved_at_iff_resolved (fst (create_incident s uuid now day_of_week ttl sev svcs))"
    and "resolved_at_iff_resolved (fst (assign s i who))"
    and "resolved_at_iff_resolved (fst (add_timeline_event s now i ev who))"
    and "resolved_at_iff_resolved (fst (resolve s now i nts))"
    and "resolved_at_iff_resolved
           (fst (auto_create_from_alert s uuid uuid' now day_of_week fired src msg sev))"
proof -
  show "resolved_at_iff_resolved (fst (create_incident s uuid now day_of_week ttl sev svcs))"
    using assms by (rule resolved_at_iff_resolved_create)
  show "resolved_at_iff_resolved (fst (assign s i who))"
    unfolding assign_eq fst_conv
    using assms by (rule resolved_at_iff_resolved_update) simp
  show "resolved_at_iff_resolved (fst (add_timeline_event s now i ev who))"
  proof (cases "select_where_id s i")
    case None
    then show ?thesis
      using assms by (simp add: add_timeline_event_def)
  next
    case (Some r)
    show ?thesis
      unfolding add_timeline_event_def Some option.case Let_def fst_conv
      using assms by (rule resolved_at_iff_resolved_update) simp
  qed
  show "resolved_at_iff_resolved (fst (resolve s now i nts))"
    unfolding resolve_eq fst_conv
    using assms by (rule resolved_at_iff_resolved_update) simp
  show "resolved_at_iff_resolved
          (fst (auto_create_from_alert s uuid uuid' now day_of_week fired src msg sev))"
    using resolved_at_iff_resolved_create [OF assms, of uuid now day_of_week "''Alert: '' @ msg" sev None]
    by (auto simp: auto_create_from_alert_def insert_alert_def resolved_at_iff_resolved_def
        split: prod.splits sum.splits)
qed

text \<open>
  C1 on the code: \<^verbatim>\<open>update_status\<close> with the valid status \<^verbatim>\<open>resolved\<close> writes the status and
  not \<^verbatim>\<open>resolved_at\<close>. After creating an incident, where the property holds, and this one
  call, the incident has status \<^verbatim>\<open>resolved\<close> and no \<^verbatim>\<open>resolved_at\<close>.
\<close>

theorem update_status_resolved_without_resolved_at:
  "resolved_at_iff_resolved
     (store (run (boot 0) [(1000000, CreateIncident ''a1b2c3d4'' 0 ''db down'' ''P1'' None)])) \<and>
   snd (update_status
          (store (run (boot 0) [(1000000, CreateIncident ''a1b2c3d4'' 0 ''db down'' ''P1'' None)]))
          ''a1b2c3d4'' ''resolved'') = True \<and>
   map_option status
     (get_incident
        (store (run (boot 0) [(1000000, CreateIncident ''a1b2c3d4'' 0 ''db down'' ''P1'' None),
                              (5, UpdateStatus ''a1b2c3d4'' ''resolved'')]))
        ''a1b2c3d4'') = Some ''resolved'' \<and>
   map_option resolved_at
     (get_incident
        (store (run (boot 0) [(1000000, CreateIncident ''a1b2c3d4'' 0 ''db down'' ''P1'' None),
                              (5, UpdateStatus ''a1b2c3d4'' ''resolved'')]))
        ''a1b2c3d4'') = Some None \<and>
   \<not> resolved_at_iff_resolved
       (store (run (boot 0) [(1000000, CreateIncident ''a1b2c3d4'' 0 ''db down'' ''P1'' None),
                             (5, UpdateStatus ''a1b2c3d4'' ''resolved'')]))"
  by (simp add: run_def boot_def advance_def empty_db_def create_incident_def oncall_schedule_def
      list_index_def TEAM_def insert_incident_def update_status_def valid_statuses_def
      update_where_id_def get_incident_def select_where_id_def incident_of_row_def Let_def
      resolved_at_iff_resolved_def)

end
